theory Spec2Isabelle
  imports Complex_Main
begin

section \<open>The attention scorer: useWritingAttention\<close>

text \<open>
  The repository holds two versions of the hook \<^verbatim>\<open>useWritingAttention\<close>: one that keeps
  the nudge count in a ref and resets its state when disabled (the ref-based variant), and
  one that reads the React state variables inside its animation-frame loop (the second
  variant). Both are embedded here, on one state record.

  JavaScript numbers are modelled as real numbers (timestamps in milliseconds, scores,
  thresholds), counters as natural numbers. A React state variable and a ref are both a
  field of the state record: a \<^verbatim>\<open>setX(v)\<close> call is the assignment of the field,
  since neither variant reads a state variable back except through the closure of its
  effect. What that closure captured when the effect ran is kept in the \<open>loop...\<close> fields:
  the effect depends on \<^verbatim>\<open>[enabled]\<close> only, so the function \<^verbatim>\<open>loop\<close> keeps seeing
  the values that \<^verbatim>\<open>finalStrike\<close>, \<^verbatim>\<open>showFinalWarning\<close>, \<^verbatim>\<open>nudges\<close> and
  \<^verbatim>\<open>worstScore\<close> had in the render that enabled it.
\<close>

record AttnOpts =
  graceMs :: real
  halfLifeMs :: real
  nudgeThreshold :: real
  finalThreshold :: real
  maxNudges :: nat
  minScore :: real
  nudgeCooldownMs :: real

record AttnState =
  score :: real
  showNudge :: bool
  nudges :: nat
  showFinalWarning :: bool
  finalStrike :: bool
  worstScore :: real
  lastActRef :: real
  lastNudgeRef :: real
  nudgesRef :: nat
  armedFinalRef :: bool
  hysteresisOkRef :: bool
  enabled :: bool
  loopFinalStrike :: bool
  loopShowFinalWarning :: bool
  loopNudges :: nat
  loopWorstScore :: real

text \<open>The defaults of the ref-based variant and of the second variant.\<close>

definition defaultOpts :: AttnOpts where
  "defaultOpts = \<lparr>graceMs = 5000, halfLifeMs = 15000, nudgeThreshold = 0.5,
     finalThreshold = 0.2, maxNudges = 5, minScore = 0.05, nudgeCooldownMs = 15000\<rparr>"

definition defaultOpts2 :: AttnOpts where
  "defaultOpts2 = \<lparr>graceMs = 5000, halfLifeMs = 30000, nudgeThreshold = 0.5,
     finalThreshold = 0.35, maxNudges = 2, minScore = 0.05, nudgeCooldownMs = 15000\<rparr>"

text \<open>
  The state of the first render at time \<open>t0\<close>: the \<^verbatim>\<open>useState\<close> and \<^verbatim>\<open>useRef\<close>
  initial values, \<^verbatim>\<open>lastActRef\<close> being \<^verbatim>\<open>performance.now()\<close>.
\<close>

definition initState :: "real \<Rightarrow> AttnState" where
  "initState t0 = \<lparr>score = 1, showNudge = False, nudges = 0, showFinalWarning = False,
     finalStrike = False, worstScore = 1, lastActRef = t0, lastNudgeRef = 0, nudgesRef = 0,
     armedFinalRef = False, hysteresisOkRef = True, enabled = False,
     loopFinalStrike = False, loopShowFinalWarning = False, loopNudges = 0,
     loopWorstScore = 1\<rparr>"

text \<open>
  \<^verbatim>\<open>Math.exp(-Math.log(2) * (t / halfLifeMs))\<close>. The loop calls it with \<open>t > 0\<close> only;
  there JavaScript's \<open>t / 0\<close> is \<open>+Infinity\<close> and \<^verbatim>\<open>Math.exp(-Infinity)\<close> is 0, where
  HOL's \<open>t / 0\<close> would be 0.
\<close>

definition expDecay :: "real \<Rightarrow> real \<Rightarrow> real" where
  "expDecay t h = (if h = 0 then 0 else exp (- ln 2 * (t / h)))"

text \<open>The value \<^verbatim>\<open>s\<close> that \<^verbatim>\<open>loop\<close> computes from the idle time.\<close>

definition loopScore :: "AttnOpts \<Rightarrow> real \<Rightarrow> real" where
  "loopScore opts idle =
     (if idle > graceMs opts
      then max (minScore opts) (expDecay (idle - graceMs opts) (halfLifeMs opts))
      else 1)"

text \<open>\<^verbatim>\<open>markActive\<close>, the same in both variants.\<close>

definition markActive :: "real \<Rightarrow> AttnState \<Rightarrow> AttnState" where
  "markActive now st = st\<lparr>lastActRef := now, score := 1\<rparr>"

text \<open>The key-down listener: \<^verbatim>\<open>if (e.metaKey || e.ctrlKey || e.altKey) return;\<close>.\<close>

definition key :: "bool \<Rightarrow> bool \<Rightarrow> bool \<Rightarrow> real \<Rightarrow> AttnState \<Rightarrow> AttnState" where
  "key metaKey ctrlKey altKey now st =
     (if metaKey \<or> ctrlKey \<or> altKey then st else markActive now st)"

text \<open>The reset branch of the ref-based variant (\<^verbatim>\<open>if (!enabled) { ... return; }\<close>).\<close>

definition resetAll :: "AttnState \<Rightarrow> AttnState" where
  "resetAll st = st\<lparr>score := 1, showNudge := False, nudges := 0, showFinalWarning := False,
     finalStrike := False, worstScore := 1, nudgesRef := 0, armedFinalRef := False,
     hysteresisOkRef := True, lastNudgeRef := 0\<rparr>"

text \<open>
  The effect body for \<^verbatim>\<open>enabled = true\<close>: listeners and the frame loop start, and the
  closure of \<^verbatim>\<open>loop\<close> is created from the state variables of this render.
\<close>

definition startLoop :: "AttnState \<Rightarrow> AttnState" where
  "startLoop st = st\<lparr>enabled := True, loopFinalStrike := finalStrike st,
     loopShowFinalWarning := showFinalWarning st, loopNudges := nudges st,
     loopWorstScore := worstScore st\<rparr>"

text \<open>The effect's cleanup: listeners removed, frame cancelled, \<^verbatim>\<open>setShowNudge(false)\<close>.\<close>

definition cleanup :: "AttnState \<Rightarrow> AttnState" where
  "cleanup st = st\<lparr>enabled := False, showNudge := False\<rparr>"

subsection \<open>The frame loop of the ref-based variant\<close>

definition nudgeStep :: "AttnOpts \<Rightarrow> real \<Rightarrow> real \<Rightarrow> AttnState \<Rightarrow> AttnState" where
  "nudgeStep opts now s st =
     (let currentNudges = nudgesRef st in
      if \<not> loopFinalStrike st \<and> \<not> armedFinalRef st \<and> s < nudgeThreshold opts
           \<and> currentNudges < maxNudges opts
      then (let sinceLast = now - lastNudgeRef st in
            if sinceLast > nudgeCooldownMs opts
            then (let newNudgeCount = currentNudges + 1;
                      st' = st\<lparr>lastNudgeRef := now, nudgesRef := newNudgeCount,
                               nudges := newNudgeCount, showNudge := True\<rparr>
                  in if newNudgeCount \<ge> maxNudges opts
                     then st'\<lparr>showFinalWarning := True, armedFinalRef := True,
                              hysteresisOkRef := False\<rparr>
                     else st')
            else st)
      else st)"

text \<open>The hysteresis and final-strike blocks, the same text in both variants.\<close>

definition hysteresisStep :: "AttnOpts \<Rightarrow> real \<Rightarrow> AttnState \<Rightarrow> AttnState" where
  "hysteresisStep opts s st =
     (if armedFinalRef st \<and> s > finalThreshold opts + 0.08
      then st\<lparr>hysteresisOkRef := True\<rparr> else st)"

definition strikeStep :: "AttnOpts \<Rightarrow> real \<Rightarrow> AttnState \<Rightarrow> AttnState" where
  "strikeStep opts s st =
     (if armedFinalRef st \<and> \<not> loopFinalStrike st \<and> s < finalThreshold opts
           \<and> hysteresisOkRef st
      then st\<lparr>finalStrike := True, hysteresisOkRef := False\<rparr> else st)"

definition loop :: "AttnOpts \<Rightarrow> real \<Rightarrow> AttnState \<Rightarrow> AttnState" where
  "loop opts now st =
     (let idle = now - lastActRef st;
          s = loopScore opts idle;
          st1 = st\<lparr>score := s, worstScore := min (worstScore st) s\<rparr>
      in strikeStep opts s (hysteresisStep opts s (nudgeStep opts now s st1)))"

subsection \<open>The frame loop of the second variant\<close>

definition nudgeStep2 :: "AttnOpts \<Rightarrow> real \<Rightarrow> real \<Rightarrow> AttnState \<Rightarrow> AttnState" where
  "nudgeStep2 opts now s st =
     (if \<not> loopFinalStrike st \<and> \<not> loopShowFinalWarning st \<and> s < nudgeThreshold opts
           \<and> loopNudges st < maxNudges opts
      then (let sinceLast = now - lastNudgeRef st in
            if sinceLast > nudgeCooldownMs opts
            then (let st' = st\<lparr>lastNudgeRef := now, nudges := nudges st + 1,
                               showNudge := True\<rparr>
                  in if loopNudges st + 1 \<ge> maxNudges opts
                     then st'\<lparr>showFinalWarning := True, armedFinalRef := True,
                              hysteresisOkRef := False\<rparr>
                     else st')
            else st)
      else st)"

definition loop2 :: "AttnOpts \<Rightarrow> real \<Rightarrow> AttnState \<Rightarrow> AttnState" where
  "loop2 opts now st =
     (let idle = now - lastActRef st;
          s = loopScore opts idle;
          st0 = st\<lparr>score := s\<rparr>;
          st1 = (if s < loopWorstScore st0 then st0\<lparr>worstScore := s\<rparr> else st0)
      in strikeStep opts s (hysteresisStep opts s (nudgeStep2 opts now s st1)))"

subsection \<open>Events and runs\<close>

text \<open>
  What can happen to a mounted hook: the \<^verbatim>\<open>enabled\<close> argument changes, a listener fires
  (with the flags of the key event, and the time \<^verbatim>\<open>performance.now()\<close> gives), an
  animation frame runs \<^verbatim>\<open>loop\<close>, or the 2500 ms timer of a nudge hides it.
  Listeners and frames exist only while the effect is active.
\<close>

datatype Event =
    SetEnabled bool
  | KeyDown bool bool bool bool real
  | Input real
  | MouseMove real
  | MouseDown real
  | Wheel real
  | SelectionChange real
  | Frame real
  | NudgeTimeout

fun step :: "AttnOpts \<Rightarrow> Event \<Rightarrow> AttnState \<Rightarrow> AttnState" where
  "step opts (SetEnabled b) st =
     (if b = enabled st then st
      else if b then startLoop st
      else resetAll (cleanup st))"
| "step opts (KeyDown metaKey ctrlKey altKey shiftKey now) st =
     (if enabled st then key metaKey ctrlKey altKey now st else st)"
| "step opts (Input now) st = (if enabled st then markActive now st else st)"
| "step opts (MouseMove now) st = (if enabled st then markActive now st else st)"
| "step opts (MouseDown now) st = (if enabled st then markActive now st else st)"
| "step opts (Wheel now) st = (if enabled st then markActive now st else st)"
| "step opts (SelectionChange now) st = (if enabled st then markActive now st else st)"
| "step opts (Frame now) st = (if enabled st then loop opts now st else st)"
| "step opts NudgeTimeout st = st\<lparr>showNudge := False\<rparr>"

fun step2 :: "AttnOpts \<Rightarrow> Event \<Rightarrow> AttnState \<Rightarrow> AttnState" where
  "step2 opts (SetEnabled b) st =
     (if b = enabled st then st
      else if b then startLoop st
      else cleanup st)"
| "step2 opts (KeyDown metaKey ctrlKey altKey shiftKey now) st =
     (if enabled st then key metaKey ctrlKey altKey now st else st)"
| "step2 opts (Input now) st = (if enabled st then markActive now st else st)"
| "step2 opts (MouseMove now) st = (if enabled st then markActive now st else st)"
| "step2 opts (MouseDown now) st = (if enabled st then markActive now st else st)"
| "step2 opts (Wheel now) st = (if enabled st then markActive now st else st)"
| "step2 opts (SelectionChange now) st = (if enabled st then markActive now st else st)"
| "step2 opts (Frame now) st = (if enabled st then loop2 opts now st else st)"
| "step2 opts NudgeTimeout st = st\<lparr>showNudge := False\<rparr>"

fun run :: "AttnOpts \<Rightarrow> Event list \<Rightarrow> AttnState \<Rightarrow> AttnState" where
  "run opts [] st = st"
| "run opts (e # es) st = run opts es (step opts e st)"

fun run2 :: "AttnOpts \<Rightarrow> Event list \<Rightarrow> AttnState \<Rightarrow> AttnState" where
  "run2 opts [] st = st"
| "run2 opts (e # es) st = run2 opts es (step2 opts e st)"

text \<open>
  Mounting runs the effect once on the initial state: the reset branch (ref-based variant)
  or nothing (second variant) when \<^verbatim>\<open>enabled\<close> is false, the loop otherwise.
\<close>

definition mount :: "real \<Rightarrow> bool \<Rightarrow> AttnState" where
  "mount t0 b = (if b then startLoop (initState t0) else resetAll (initState t0))"

definition mount2 :: "real \<Rightarrow> bool \<Rightarrow> AttnState" where
  "mount2 t0 b = (if b then startLoop (initState t0) else initState t0)"

subsection \<open>Observations on a run\<close>

text \<open>
  The times of the frames that emitted a nudge (the frames that changed the nudge counter),
  in the order of the run.
\<close>

fun nudgeTimes :: "AttnOpts \<Rightarrow> Event list \<Rightarrow> AttnState \<Rightarrow> real list" where
  "nudgeTimes opts [] st = []"
| "nudgeTimes opts (Frame now # es) st =
     (if nudges (step opts (Frame now) st) \<noteq> nudges st then [now] else [])
       @ nudgeTimes opts es (step opts (Frame now) st)"
| "nudgeTimes opts (e # es) st = nudgeTimes opts es (step opts e st)"

fun nudgeTimes2 :: "AttnOpts \<Rightarrow> Event list \<Rightarrow> AttnState \<Rightarrow> real list" where
  "nudgeTimes2 opts [] st = []"
| "nudgeTimes2 opts (Frame now # es) st =
     (if nudges (step2 opts (Frame now) st) \<noteq> nudges st then [now] else [])
       @ nudgeTimes2 opts es (step2 opts (Frame now) st)"
| "nudgeTimes2 opts (e # es) st = nudgeTimes2 opts es (step2 opts e st)"

text \<open>
  The condition of the hysteresis block, read off the state a frame leaves: the final
  warning is armed and the score is above \<open>finalThreshold + 0.08\<close>. The loop evaluates
  it after the nudge block, so it can hold of the very frame that arms the warning, with no
  rise of the score. \<open>noArmedAboveMargin\<close> says that it holds of no frame of a run.
\<close>

definition armedAboveMargin :: "AttnOpts \<Rightarrow> AttnState \<Rightarrow> bool" where
  "armedAboveMargin opts st' = (armedFinalRef st' \<and> score st' > finalThreshold opts + 0.08)"

fun noArmedAboveMargin :: "AttnOpts \<Rightarrow> Event list \<Rightarrow> AttnState \<Rightarrow> bool" where
  "noArmedAboveMargin opts [] st = True"
| "noArmedAboveMargin opts (Frame now # es) st =
     (\<not> (enabled st \<and> armedAboveMargin opts (step opts (Frame now) st))
      \<and> noArmedAboveMargin opts es (step opts (Frame now) st))"
| "noArmedAboveMargin opts (e # es) st = noArmedAboveMargin opts es (step opts e st)"

fun noArmedAboveMargin2 :: "AttnOpts \<Rightarrow> Event list \<Rightarrow> AttnState \<Rightarrow> bool" where
  "noArmedAboveMargin2 opts [] st = True"
| "noArmedAboveMargin2 opts (Frame now # es) st =
     (\<not> (enabled st \<and> armedAboveMargin opts (step2 opts (Frame now) st))
      \<and> noArmedAboveMargin2 opts es (step2 opts (Frame now) st))"
| "noArmedAboveMargin2 opts (e # es) st = noArmedAboveMargin2 opts es (step2 opts e st)"

text \<open>The events of one monitoring session: \<^verbatim>\<open>enabled\<close> does not change.\<close>

fun inSession :: "Event list \<Rightarrow> bool" where
  "inSession [] = True"
| "inSession (SetEnabled b # es) = False"
| "inSession (e # es) = inSession es"

section \<open>The guards: useComplianceGuard and useAttentionGuard\<close>

text \<open>
  The two guard hooks are embedded on one state record. \<^verbatim>\<open>violations\<close> is the counter
  (\<^verbatim>\<open>violationCount\<close> in \<^verbatim>\<open>useAttentionGuard\<close>), \<^verbatim>\<open>escapeCount\<close> is
  \<^verbatim>\<open>escapeRef.current.count\<close>, and the two callback fields record the calls of
  \<^verbatim>\<open>opts.onViolation\<close> (with their arguments) and of \<^verbatim>\<open>opts.onResume\<close>
  (\<^verbatim>\<open>onAllowedResume\<close> in \<^verbatim>\<open>useAttentionGuard\<close>, which has no \<^verbatim>\<open>suppressedRef\<close>).
  The wake lock is left out: no handler reads it.

  A handler reads the browser when it runs; what it reads is the \<open>Document\<close> its event
  carries: \<^verbatim>\<open>document.visibilityState === "visible"\<close>, \<^verbatim>\<open>document.hasFocus()\<close> and
  \<^verbatim>\<open>!!document.fullscreenElement\<close>.
\<close>

record Options =
  requireFullscreen :: bool
  enableWakeLock :: bool
  initialViolations :: int

record Document =
  visibilityVisible :: bool
  hasFocus :: bool
  fullscreenElement :: bool

record GuardState =
  needsAttention :: bool
  violations :: int
  escapeCount :: nat
  suppressedRef :: bool
  onViolationCalls :: "int list"
  onResumeCalls :: nat

definition initGuard :: "Options \<Rightarrow> GuardState" where
  "initGuard opts = \<lparr>needsAttention = False, violations = initialViolations opts,
     escapeCount = 0, suppressedRef = False, onViolationCalls = [], onResumeCalls = 0\<rparr>"

subsection \<open>useComplianceGuard\<close>

definition isCompliant :: "Options \<Rightarrow> Document \<Rightarrow> bool" where
  "isCompliant opts d =
     (let visible = visibilityVisible d;
          focused = hasFocus d;
          fsOk = (\<not> requireFullscreen opts \<or> fullscreenElement d)
      in visible \<and> focused \<and> fsOk)"

definition flagViolation :: "GuardState \<Rightarrow> GuardState" where
  "flagViolation st =
     (if suppressedRef st then st
      else (let next = violations st + 1
            in st\<lparr>violations := next, onViolationCalls := onViolationCalls st @ [next],
                  needsAttention := True\<rparr>))"

definition checkNow :: "Options \<Rightarrow> Document \<Rightarrow> GuardState \<Rightarrow> GuardState" where
  "checkNow opts d st =
     (if suppressedRef st then st\<lparr>needsAttention := False\<rparr>
      else st\<lparr>needsAttention := \<not> isCompliant opts d\<rparr>)"

text \<open>
  \<^verbatim>\<open>resume\<close> awaits the fullscreen request, the wake-lock request and one animation
  frame; \<open>d\<close> is the document that \<^verbatim>\<open>isCompliant()\<close> reads after them.
\<close>

definition resume :: "Options \<Rightarrow> Document \<Rightarrow> GuardState \<Rightarrow> GuardState" where
  "resume opts d st =
     (if isCompliant opts d
      then st\<lparr>needsAttention := False, onResumeCalls := onResumeCalls st + 1\<rparr>
      else st\<lparr>needsAttention := True\<rparr>)"

text \<open>
  The key listener: the flags are \<^verbatim>\<open>e.ctrlKey\<close>, \<^verbatim>\<open>e.shiftKey\<close> and
  \<^verbatim>\<open>e.code === "KeyE"\<close>. The 2000 ms timer that it restarts is the event
  \<open>EscapeTimer\<close> below.
\<close>

definition onKey :: "bool \<Rightarrow> bool \<Rightarrow> bool \<Rightarrow> GuardState \<Rightarrow> GuardState" where
  "onKey ctrlKey shiftKey keyE st =
     (if ctrlKey \<and> shiftKey \<and> keyE
      then (let st1 = st\<lparr>escapeCount := escapeCount st + 1\<rparr>
            in if escapeCount st1 \<ge> 5
               then st1\<lparr>escapeCount := 0, suppressedRef := True, needsAttention := False,
                        onResumeCalls := onResumeCalls st1 + 1\<rparr>
               else st1)
      else st)"

definition onVis :: "Options \<Rightarrow> Document \<Rightarrow> GuardState \<Rightarrow> GuardState" where
  "onVis opts d st = (if \<not> isCompliant opts d then flagViolation st else checkNow opts d st)"

definition onBlur :: "Options \<Rightarrow> Document \<Rightarrow> GuardState \<Rightarrow> GuardState" where
  "onBlur opts d st = (if \<not> isCompliant opts d then flagViolation st else checkNow opts d st)"

definition onFocus :: "Options \<Rightarrow> Document \<Rightarrow> GuardState \<Rightarrow> GuardState" where
  "onFocus opts d st = checkNow opts d st"

definition onFS :: "Options \<Rightarrow> Document \<Rightarrow> GuardState \<Rightarrow> GuardState" where
  "onFS opts d st = (if \<not> isCompliant opts d then flagViolation st else checkNow opts d st)"

datatype GuardEvent =
    VisibilityChange Document
  | Blur Document
  | Focus Document
  | FullscreenChange Document
  | Poll Document
  | GuardKeyDown bool bool bool
  | EscapeTimer
  | Resume Document

fun stepGuard :: "Options \<Rightarrow> GuardEvent \<Rightarrow> GuardState \<Rightarrow> GuardState" where
  "stepGuard opts (VisibilityChange d) st = onVis opts d st"
| "stepGuard opts (Blur d) st = onBlur opts d st"
| "stepGuard opts (Focus d) st = onFocus opts d st"
| "stepGuard opts (FullscreenChange d) st = onFS opts d st"
| "stepGuard opts (Poll d) st = checkNow opts d st"
| "stepGuard opts (GuardKeyDown ctrlKey shiftKey keyE) st = onKey ctrlKey shiftKey keyE st"
| "stepGuard opts EscapeTimer st = st\<lparr>escapeCount := 0\<rparr>"
| "stepGuard opts (Resume d) st = resume opts d st"

fun runGuard :: "Options \<Rightarrow> GuardEvent list \<Rightarrow> GuardState \<Rightarrow> GuardState" where
  "runGuard opts [] st = st"
| "runGuard opts (e # es) st = runGuard opts es (stepGuard opts e st)"

text \<open>Mounting runs the effect, which calls \<^verbatim>\<open>checkNow()\<close> once.\<close>

definition mountGuard :: "Options \<Rightarrow> Document \<Rightarrow> GuardState" where
  "mountGuard opts d = checkNow opts d (initGuard opts)"

text \<open>
  The events whose handler finds the predicate false and calls \<^verbatim>\<open>flagViolation\<close>.
\<close>

fun flagging :: "Options \<Rightarrow> GuardEvent \<Rightarrow> bool" where
  "flagging opts (VisibilityChange d) = (\<not> isCompliant opts d)"
| "flagging opts (Blur d) = (\<not> isCompliant opts d)"
| "flagging opts (FullscreenChange d) = (\<not> isCompliant opts d)"
| "flagging opts e = False"

text \<open>
  The number of events of a run that call \<^verbatim>\<open>flagViolation\<close> while the guard is not
  suppressed.
\<close>

fun flagCount :: "Options \<Rightarrow> GuardEvent list \<Rightarrow> GuardState \<Rightarrow> nat" where
  "flagCount opts [] st = 0"
| "flagCount opts (e # es) st =
     (if flagging opts e \<and> \<not> suppressedRef st then 1 else 0)
       + flagCount opts es (stepGuard opts e st)"

text \<open>
  The number of compliant-to-non-compliant transitions of the predicate along the
  documents a run observes, \<open>prev\<close> being the value of the predicate before the first.
\<close>

fun transitions :: "Options \<Rightarrow> bool \<Rightarrow> Document list \<Rightarrow> nat" where
  "transitions opts prev [] = 0"
| "transitions opts prev (d # ds) =
     (if prev \<and> \<not> isCompliant opts d then 1 else 0) + transitions opts (isCompliant opts d) ds"

subsection \<open>useAttentionGuard\<close>

text \<open>
  The older guard has no compliance predicate and no suppression flag: its handlers test
  the one condition of their own event, and \<^verbatim>\<open>resume\<close> tests nothing.
\<close>

definition flagViolationA :: "GuardState \<Rightarrow> GuardState" where
  "flagViolationA st =
     (let next = violations st + 1
      in st\<lparr>violations := next, onViolationCalls := onViolationCalls st @ [next],
            needsAttention := True\<rparr>)"

definition onVisibility :: "Document \<Rightarrow> GuardState \<Rightarrow> GuardState" where
  "onVisibility d st = (if \<not> visibilityVisible d then flagViolationA st else st)"

definition onFullscreenChange :: "Document \<Rightarrow> GuardState \<Rightarrow> GuardState" where
  "onFullscreenChange d st = (if \<not> fullscreenElement d then flagViolationA st else st)"

definition onKeyA :: "bool \<Rightarrow> bool \<Rightarrow> bool \<Rightarrow> GuardState \<Rightarrow> GuardState" where
  "onKeyA ctrlKey shiftKey keyE st =
     (if ctrlKey \<and> shiftKey \<and> keyE
      then (let st1 = st\<lparr>escapeCount := escapeCount st + 1\<rparr>
            in if escapeCount st1 \<ge> 5
               then st1\<lparr>escapeCount := 0, needsAttention := False,
                        onResumeCalls := onResumeCalls st1 + 1\<rparr>
               else st1)
      else st)"

definition resumeA :: "GuardState \<Rightarrow> GuardState" where
  "resumeA st = st\<lparr>needsAttention := False, onResumeCalls := onResumeCalls st + 1\<rparr>"

text \<open>
  \<^verbatim>\<open>useAttentionGuard\<close> registers no focus listener and no poll; those events do
  nothing to it.
\<close>

fun stepA :: "GuardEvent \<Rightarrow> GuardState \<Rightarrow> GuardState" where
  "stepA (VisibilityChange d) st = onVisibility d st"
| "stepA (Blur d) st = flagViolationA st"
| "stepA (Focus d) st = st"
| "stepA (FullscreenChange d) st = onFullscreenChange d st"
| "stepA (Poll d) st = st"
| "stepA (GuardKeyDown ctrlKey shiftKey keyE) st = onKeyA ctrlKey shiftKey keyE st"
| "stepA EscapeTimer st = st\<lparr>escapeCount := 0\<rparr>"
| "stepA (Resume d) st = resumeA st"

section \<open>Invariants and concrete inputs\<close>

text \<open>The invariants of the runs, used in the proofs below.\<close>

definition armedInv :: "AttnState \<Rightarrow> bool" where
  "armedInv st =
     ((armedFinalRef st \<longrightarrow> showFinalWarning st) \<and> (finalStrike st \<longrightarrow> armedFinalRef st))"

definition hysInv :: "AttnState \<Rightarrow> bool" where
  "hysInv st = (armedFinalRef st \<longrightarrow> \<not> hysteresisOkRef st)"

definition countInv :: "AttnOpts \<Rightarrow> AttnState \<Rightarrow> bool" where
  "countInv opts st =
     (nudges st = nudgesRef st \<and> nudgesRef st \<le> maxNudges opts
      \<and> showFinalWarning st = armedFinalRef st)"

definition scoreInv :: "AttnState \<Rightarrow> bool" where
  "scoreInv st = (0 \<le> score st \<and> score st \<le> 1)"

text \<open>
  Options with a single nudge and a long cooldown, on which a short run reaches the final
  warning and the strike in both variants.
\<close>

definition quickOpts :: AttnOpts where
  "quickOpts = \<lparr>graceMs = 5000, halfLifeMs = 15000, nudgeThreshold = 0.5,
     finalThreshold = 0.2, maxNudges = 1, minScore = 0.05, nudgeCooldownMs = 60000\<rparr>"

text \<open>
  The options \<^verbatim>\<open>App.tsx\<close> passes to the hook (the others are the defaults of the
  ref-based variant).
\<close>

definition appOpts :: AttnOpts where
  "appOpts = \<lparr>graceMs = 5000, halfLifeMs = 20000, nudgeThreshold = 0.5,
     finalThreshold = 0.35, maxNudges = 5, minScore = 0.05, nudgeCooldownMs = 15000\<rparr>"

text \<open>
  The options \<^verbatim>\<open>ComplianceGate\<close> passes by default, and three documents: in view and
  fullscreen, switched away from, and visible and focused but not fullscreen.
\<close>

definition gateOpts :: Options where
  "gateOpts = \<lparr>requireFullscreen = True, enableWakeLock = True, initialViolations = 0\<rparr>"

definition inView :: Document where
  "inView = \<lparr>visibilityVisible = True, hasFocus = True, fullscreenElement = True\<rparr>"

definition away :: Document where
  "away = \<lparr>visibilityVisible = False, hasFocus = False, fullscreenElement = True\<rparr>"

definition windowed :: Document where
  "windowed = \<lparr>visibilityVisible = True, hasFocus = True, fullscreenElement = False\<rparr>"

section \<open>Lemmas on the attention scorer\<close>

subsection \<open>The decay\<close>

lemma expDecay_halvings: "h \<noteq> 0 \<Longrightarrow> expDecay (real n * h) h = 1 / 2 ^ n"
proof -
  assume h: "h \<noteq> 0"
  have "exp (- ln 2 * real n) = (exp (ln (2::real))) powr (- real n)"
    by (simp add: powr_def mult.commute)
  also have "\<dots> = 1 / 2 ^ n"
    by (simp add: powr_minus powr_realpow divide_inverse)
  finally show ?thesis using h by (simp add: expDecay_def)
qed

lemma expDecay_nonneg: "0 \<le> expDecay t h"
  by (simp add: expDecay_def)

lemma expDecay_le_one: "0 < h \<Longrightarrow> 0 \<le> t \<Longrightarrow> expDecay t h \<le> 1"
  by (simp add: expDecay_def)

lemma expDecay_antimono: "0 < h \<Longrightarrow> t1 \<le> t2 \<Longrightarrow> expDecay t2 h \<le> expDecay t1 h"
  by (simp add: expDecay_def divide_right_mono)

lemma loopScore_antimono:
  assumes "0 < halfLifeMs opts" "minScore opts \<le> 1" "t1 \<le> t2"
  shows "loopScore opts t2 \<le> loopScore opts t1"
  using assms expDecay_antimono[of "halfLifeMs opts" "t1 - graceMs opts" "t2 - graceMs opts"]
    expDecay_le_one[of "halfLifeMs opts" "t2 - graceMs opts"]
  by (auto simp: loopScore_def max_def)

lemma loopScore_range:
  assumes "0 < halfLifeMs opts" "minScore opts \<le> 1"
  shows "0 \<le> loopScore opts idle \<and> loopScore opts idle \<le> 1"
  using assms expDecay_nonneg[of "idle - graceMs opts" "halfLifeMs opts"]
    expDecay_le_one[of "halfLifeMs opts" "idle - graceMs opts"]
  by (auto simp: loopScore_def max_def)

lemma score_loop: "score (loop opts now st) = loopScore opts (now - lastActRef st)"
  by (simp add: loop_def Let_def strikeStep_def hysteresisStep_def nudgeStep_def)

lemma score_loop2: "score (loop2 opts now st) = loopScore opts (now - lastActRef st)"
  by (simp add: loop2_def Let_def strikeStep_def hysteresisStep_def nudgeStep2_def)

lemma scoreInv_step:
  assumes "0 < halfLifeMs opts" "minScore opts \<le> 1" "scoreInv st"
  shows "scoreInv (step opts e st)" and "scoreInv (step2 opts e st)"
  using assms loopScore_range[OF assms(1,2)]
  by (cases e; simp add: scoreInv_def score_loop score_loop2 key_def markActive_def
      startLoop_def resetAll_def cleanup_def)+

lemma scoreInv_run:
  assumes "0 < halfLifeMs opts" "minScore opts \<le> 1"
  shows "scoreInv st \<Longrightarrow> scoreInv (run opts es st)"
  by (induction es arbitrary: st) (simp_all add: scoreInv_step[OF assms])

lemma scoreInv_run2:
  assumes "0 < halfLifeMs opts" "minScore opts \<le> 1"
  shows "scoreInv st \<Longrightarrow> scoreInv (run2 opts es st)"
  by (induction es arbitrary: st) (simp_all add: scoreInv_step[OF assms])

lemma scoreInv_mount: "scoreInv (mount t0 b)" "scoreInv (mount2 t0 b)"
  by (simp_all add: scoreInv_def mount_def mount2_def startLoop_def resetAll_def initState_def)

subsection \<open>Evaluation on concrete options\<close>

lemmas evalDefs = loop_def loop2_def nudgeStep_def nudgeStep2_def hysteresisStep_def
  strikeStep_def mount_def mount2_def startLoop_def initState_def resetAll_def cleanup_def
  markActive_def key_def armedAboveMargin_def Let_def

lemma defaultOpts_fields:
  "graceMs defaultOpts = 5000" "halfLifeMs defaultOpts = 15000"
  "nudgeThreshold defaultOpts = 0.5" "finalThreshold defaultOpts = 0.2"
  "maxNudges defaultOpts = 5" "minScore defaultOpts = 0.05"
  "nudgeCooldownMs defaultOpts = 15000"
  by (simp_all add: defaultOpts_def)

lemma defaultOpts2_fields:
  "graceMs defaultOpts2 = 5000" "halfLifeMs defaultOpts2 = 30000"
  "nudgeThreshold defaultOpts2 = 0.5" "finalThreshold defaultOpts2 = 0.35"
  "maxNudges defaultOpts2 = 2" "minScore defaultOpts2 = 0.05"
  "nudgeCooldownMs defaultOpts2 = 15000"
  by (simp_all add: defaultOpts2_def)

lemma quickOpts_fields:
  "graceMs quickOpts = 5000" "halfLifeMs quickOpts = 15000"
  "nudgeThreshold quickOpts = 0.5" "finalThreshold quickOpts = 0.2"
  "maxNudges quickOpts = 1" "minScore quickOpts = 0.05"
  "nudgeCooldownMs quickOpts = 60000"
  by (simp_all add: quickOpts_def)

lemma loopScore_default_values:
  "loopScore defaultOpts 5000 = 1"
  "loopScore defaultOpts 20000 = 1/2"
  "loopScore defaultOpts 35000 = 1/4"
  using expDecay_halvings[of 15000 1] expDecay_halvings[of 15000 2]
  by (simp_all add: loopScore_def defaultOpts_fields)

lemma loopScore_default2_values:
  "loopScore defaultOpts2 65000 = 1/4"
  "loopScore defaultOpts2 125000 = 1/16"
  "loopScore defaultOpts2 185000 = 1/20"
  using expDecay_halvings[of 30000 2] expDecay_halvings[of 30000 4] expDecay_halvings[of 30000 6]
  by (simp_all add: loopScore_def defaultOpts2_fields)

lemma loopScore_quick_values:
  "loopScore quickOpts 1000 = 1"
  "loopScore quickOpts 50000 = 1/8"
  "loopScore quickOpts 65000 = 1/16"
  "loopScore quickOpts 80000 = 1/20"
  "loopScore quickOpts 140000 = 1/20"
  using expDecay_halvings[of 15000 3] expDecay_halvings[of 15000 4] expDecay_halvings[of 15000 5]
    expDecay_halvings[of 15000 9]
  by (simp_all add: loopScore_def quickOpts_fields)

lemma appOpts_fields:
  "graceMs appOpts = 5000" "halfLifeMs appOpts = 20000"
  "nudgeThreshold appOpts = 0.5" "finalThreshold appOpts = 0.35"
  "maxNudges appOpts = 5" "minScore appOpts = 0.05"
  "nudgeCooldownMs appOpts = 15000"
  by (simp_all add: appOpts_def)

lemma loopScore_app_values:
  "loopScore appOpts 1000 = 1"
  "loopScore appOpts 45000 = 1/4"
  using expDecay_halvings[of 20000 2]
  by (simp_all add: loopScore_def appOpts_fields)

text \<open>
  After nine eighths of a half-life the decay is \<open>2 powr (- 9 / 8)\<close>, about 0.4585: its
  eighth power is 1/512, which lies between those of 0.43 and 0.5.
\<close>

lemma exp_nine_eighths:
  "(43 / 100 :: real) < exp (- (ln 2 * (9 / 8)))" "exp (- (ln 2 * (9 / 8))) < (1 / 2 :: real)"
proof -
  let ?x = "exp (- (ln 2 * (9 / 8))) :: real"
  have pos: "0 < ?x" by simp
  have "?x ^ 8 = exp (of_nat 8 * (- (ln 2 * (9 / 8))))"
    by (rule exp_of_nat_mult[symmetric])
  also have "\<dots> = exp (- (of_nat 9 * ln 2))" by simp
  also have "\<dots> = inverse (exp (of_nat 9 * ln 2))" by (rule exp_minus)
  also have "\<dots> = inverse (exp (ln 2) ^ 9)" by (simp only: exp_of_nat_mult)
  also have "\<dots> = 1 / 512" by simp
  finally have p8: "?x ^ 8 = 1 / 512" .
  show "43 / 100 < ?x"
  proof (rule ccontr)
    assume "\<not> 43 / 100 < ?x"
    then have "?x \<le> 43 / 100" by simp
    then have "?x ^ 8 \<le> (43 / 100) ^ 8" using pos by (intro power_mono) simp_all
    then have "(1 / 512 :: real) \<le> (43 / 100) ^ 8" unfolding p8 .
    then show False by (simp add: power_divide)
  qed
  show "?x < 1 / 2"
  proof (rule ccontr)
    assume "\<not> ?x < 1 / 2"
    then have "1 / 2 \<le> ?x" by simp
    then have "(1 / 2) ^ 8 \<le> ?x ^ 8" by (intro power_mono) simp_all
    then have "(1 / 2) ^ 8 \<le> (1 / 512 :: real)" unfolding p8 .
    then show False by (simp add: power_divide)
  qed
qed

lemma loopScore_app_27500:
  "43 / 100 < loopScore appOpts 27500" "loopScore appOpts 27500 < 1 / 2"
  using exp_nine_eighths
  by (simp_all add: loopScore_def appOpts_fields expDecay_def max_def)

lemma loopScore_app_27500_tests:
  "loopScore appOpts 27500 < 1 / 2"
  "43 / 100 < loopScore appOpts 27500"
  "\<not> loopScore appOpts 27500 < 7 / 20"
  "\<not> loopScore appOpts 27500 \<le> 1 / 4"
  using loopScore_app_27500 by simp_all

subsection \<open>The strike needs the armed warning, and stays\<close>

lemma armedInv_loop: "armedInv st \<Longrightarrow> armedInv (loop opts now st)"
  by (auto simp: armedInv_def loop_def Let_def strikeStep_def hysteresisStep_def nudgeStep_def)

lemma armedInv_loop2: "armedInv st \<Longrightarrow> armedInv (loop2 opts now st)"
  by (auto simp: armedInv_def loop2_def Let_def strikeStep_def hysteresisStep_def
      nudgeStep2_def)

lemma armedInv_step: "armedInv st \<Longrightarrow> armedInv (step opts e st)"
  by (cases e)
    (auto simp: armedInv_loop,
     auto simp: armedInv_def key_def markActive_def startLoop_def resetAll_def cleanup_def)

lemma armedInv_step2: "armedInv st \<Longrightarrow> armedInv (step2 opts e st)"
  by (cases e)
    (auto simp: armedInv_loop2,
     auto simp: armedInv_def key_def markActive_def startLoop_def cleanup_def)

lemma armedInv_run: "armedInv st \<Longrightarrow> armedInv (run opts es st)"
  by (induction es arbitrary: st) (simp_all add: armedInv_step)

lemma armedInv_run2: "armedInv st \<Longrightarrow> armedInv (run2 opts es st)"
  by (induction es arbitrary: st) (simp_all add: armedInv_step2)

lemma armedInv_mount: "armedInv (mount t0 b)" "armedInv (mount2 t0 b)"
  by (simp_all add: armedInv_def mount_def mount2_def startLoop_def resetAll_def initState_def)

lemma strike_kept_loop: "finalStrike st \<Longrightarrow> finalStrike (loop opts now st)"
  by (simp add: loop_def Let_def strikeStep_def hysteresisStep_def nudgeStep_def)

lemma strike_kept_loop2: "finalStrike st \<Longrightarrow> finalStrike (loop2 opts now st)"
  by (simp add: loop2_def Let_def strikeStep_def hysteresisStep_def nudgeStep2_def)

lemma strike_kept_step:
  "finalStrike st \<Longrightarrow> e \<noteq> SetEnabled False \<Longrightarrow> finalStrike (step opts e st)"
  by (cases e) (auto simp: strike_kept_loop key_def markActive_def startLoop_def)

lemma strike_kept_step2: "finalStrike st \<Longrightarrow> finalStrike (step2 opts e st)"
  by (cases e) (auto simp: strike_kept_loop2 key_def markActive_def startLoop_def cleanup_def)

lemma strike_kept_run:
  "finalStrike st \<Longrightarrow> SetEnabled False \<notin> set es \<Longrightarrow> finalStrike (run opts es st)"
  by (induction es arbitrary: st) (auto simp: strike_kept_step)

lemma strike_kept_run2: "finalStrike st \<Longrightarrow> finalStrike (run2 opts es st)"
  by (induction es arbitrary: st) (auto simp: strike_kept_step2)

subsection \<open>The hysteresis flag\<close>

lemma hys_loop:
  assumes "hysInv st" "\<not> armedAboveMargin opts (loop opts now st)"
  shows "hysInv (loop opts now st) \<and> (finalStrike (loop opts now st) \<longrightarrow> finalStrike st)"
  using assms
  by (auto simp: hysInv_def armedAboveMargin_def loop_def Let_def strikeStep_def hysteresisStep_def
      nudgeStep_def split: if_splits)

lemma hys_loop2:
  assumes "hysInv st" "\<not> armedAboveMargin opts (loop2 opts now st)"
  shows "hysInv (loop2 opts now st) \<and> (finalStrike (loop2 opts now st) \<longrightarrow> finalStrike st)"
  using assms
  by (auto simp: hysInv_def armedAboveMargin_def loop2_def Let_def strikeStep_def hysteresisStep_def
      nudgeStep2_def split: if_splits)

lemma hys_other:
  assumes "hysInv st" "\<And>now. e \<noteq> Frame now"
  shows "hysInv (step opts e st) \<and> (finalStrike (step opts e st) \<longrightarrow> finalStrike st)"
  using assms
  by (cases e)
    (auto simp: hysInv_def key_def markActive_def startLoop_def resetAll_def cleanup_def)

lemma hys_other2:
  assumes "hysInv st" "\<And>now. e \<noteq> Frame now"
  shows "hysInv (step2 opts e st) \<and> (finalStrike (step2 opts e st) \<longrightarrow> finalStrike st)"
  using assms
  by (cases e) (auto simp: hysInv_def key_def markActive_def startLoop_def cleanup_def)

lemma hys_run:
  "hysInv st \<Longrightarrow> noArmedAboveMargin opts es st \<Longrightarrow> finalStrike (run opts es st) \<Longrightarrow> finalStrike st"
proof (induction es arbitrary: st)
  case Nil
  then show ?case by simp
next
  case (Cons e es)
  show ?case
  proof (cases "\<exists>now. e = Frame now")
    case True
    then obtain now where e: "e = Frame now" by blast
    show ?thesis
    proof (cases "enabled st")
      case True
      with Cons.prems e have nr: "\<not> armedAboveMargin opts (loop opts now st)"
        and rest: "noArmedAboveMargin opts es (loop opts now st)" by simp_all
      from hys_loop[OF Cons.prems(1) nr] Cons.IH[OF _ rest] Cons.prems(3) e True
      show ?thesis by simp
    next
      case False
      with Cons e show ?thesis by simp
    qed
  next
    case False
    then have ne: "\<And>now. e \<noteq> Frame now" by blast
    from Cons.prems(2) ne have rest: "noArmedAboveMargin opts es (step opts e st)"
      by (cases e) simp_all
    from hys_other[OF Cons.prems(1) ne, of opts] Cons.IH[OF _ rest] Cons.prems(3)
    show ?thesis by simp
  qed
qed

lemma hys_run2:
  "hysInv st \<Longrightarrow> noArmedAboveMargin2 opts es st \<Longrightarrow> finalStrike (run2 opts es st) \<Longrightarrow> finalStrike st"
proof (induction es arbitrary: st)
  case Nil
  then show ?case by simp
next
  case (Cons e es)
  show ?case
  proof (cases "\<exists>now. e = Frame now")
    case True
    then obtain now where e: "e = Frame now" by blast
    show ?thesis
    proof (cases "enabled st")
      case True
      with Cons.prems e have nr: "\<not> armedAboveMargin opts (loop2 opts now st)"
        and rest: "noArmedAboveMargin2 opts es (loop2 opts now st)" by simp_all
      from hys_loop2[OF Cons.prems(1) nr] Cons.IH[OF _ rest] Cons.prems(3) e True
      show ?thesis by simp
    next
      case False
      with Cons e show ?thesis by simp
    qed
  next
    case False
    then have ne: "\<And>now. e \<noteq> Frame now" by blast
    from Cons.prems(2) ne have rest: "noArmedAboveMargin2 opts es (step2 opts e st)"
      by (cases e) simp_all
    from hys_other2[OF Cons.prems(1) ne, of opts] Cons.IH[OF _ rest] Cons.prems(3)
    show ?thesis by simp
  qed
qed

subsection \<open>The nudge counter of the ref-based variant\<close>

lemma countInv_loop: "countInv opts st \<Longrightarrow> countInv opts (loop opts now st)"
  by (auto simp: countInv_def loop_def Let_def strikeStep_def hysteresisStep_def nudgeStep_def)

lemma countInv_step: "countInv opts st \<Longrightarrow> countInv opts (step opts e st)"
  by (cases e)
    (auto simp: countInv_loop,
     auto simp: countInv_def key_def markActive_def startLoop_def resetAll_def cleanup_def)

lemma countInv_run: "countInv opts st \<Longrightarrow> countInv opts (run opts es st)"
  by (induction es arbitrary: st) (simp_all add: countInv_step)

lemma countInv_mount: "countInv opts (mount t0 b)"
  by (simp add: countInv_def mount_def startLoop_def resetAll_def initState_def)

lemma nudge_frame:
  assumes "nudges st = nudgesRef st"
  shows "(nudges (loop opts now st) \<noteq> nudges st \<longrightarrow>
            lastNudgeRef (loop opts now st) = now
            \<and> now - lastNudgeRef st > nudgeCooldownMs opts
            \<and> nudges (loop opts now st) = nudges st + 1)
       \<and> (nudges (loop opts now st) = nudges st \<longrightarrow>
            lastNudgeRef (loop opts now st) = lastNudgeRef st)"
  using assms
  by (auto simp: loop_def Let_def strikeStep_def hysteresisStep_def nudgeStep_def)

lemma other_lastNudge:
  assumes "\<And>now. e \<noteq> Frame now" "\<And>b. e \<noteq> SetEnabled b"
  shows "lastNudgeRef (step opts e st) = lastNudgeRef st"
  using assms by (cases e; simp add: key_def markActive_def)

lemma spacing_run:
  assumes "0 \<le> nudgeCooldownMs opts"
  shows "countInv opts st \<Longrightarrow> inSession es \<Longrightarrow>
     (\<forall>t \<in> set (nudgeTimes opts es st). t - lastNudgeRef st > nudgeCooldownMs opts)
     \<and> sorted_wrt (\<lambda>a b. b - a > nudgeCooldownMs opts) (nudgeTimes opts es st)"
proof (induction es arbitrary: st)
  case Nil
  then show ?case by simp
next
  case (Cons e es)
  have inv': "countInv opts (step opts e st)" using Cons.prems(1) by (rule countInv_step)
  from Cons.prems(2) have sess: "inSession es" by (cases e) simp_all
  note IH = Cons.IH[OF inv' sess]
  show ?case
  proof (cases "\<exists>now. e = Frame now")
    case True
    then obtain now where e: "e = Frame now" by blast
    show ?thesis
    proof (cases "enabled st")
      case True
      from Cons.prems(1) have eq: "nudges st = nudgesRef st" by (simp add: countInv_def)
      from nudge_frame[OF eq, of opts now] IH e True assms
      show ?thesis by (auto simp: sorted_wrt_append)
    next
      case False
      with IH e show ?thesis by simp
    qed
  next
    case False
    then have ne: "\<And>now. e \<noteq> Frame now" by blast
    from Cons.prems(2) have ns: "\<And>b. e \<noteq> SetEnabled b" by (cases e) auto
    from other_lastNudge[OF ne ns, of opts st] IH ne
    show ?thesis by (cases e) auto
  qed
qed

lemma arm_step:
  assumes "countInv opts st"
  shows "(\<not> armedFinalRef st \<and> armedFinalRef (step opts e st)) \<longleftrightarrow>
         (nudges st < maxNudges opts \<and> nudges (step opts e st) = maxNudges opts)"
proof (cases e)
  case (Frame now)
  with assms show ?thesis
    by (auto simp: countInv_def loop_def Let_def strikeStep_def hysteresisStep_def
        nudgeStep_def)
qed (use assms in \<open>auto simp: countInv_def key_def markActive_def startLoop_def
      resetAll_def cleanup_def\<close>)

lemma armed_kept_step:
  "armedFinalRef st \<Longrightarrow> e \<noteq> SetEnabled False \<Longrightarrow> armedFinalRef (step opts e st)"
  by (cases e)
    (auto simp: key_def markActive_def startLoop_def loop_def Let_def strikeStep_def
      hysteresisStep_def nudgeStep_def)

lemma armed_kept_run:
  "armedFinalRef st \<Longrightarrow> SetEnabled False \<notin> set es \<Longrightarrow> armedFinalRef (run opts es st)"
  by (induction es arbitrary: st) (auto simp: armed_kept_step)

text \<open>
  In the ref-based variant, on every run from the mount: the nudge counter stays at or
  below \<open>maxNudges\<close>; within a session the nudges are more than \<open>nudgeCooldownMs\<close>
  apart; the warning is armed by exactly the step that takes the counter to \<open>maxNudges\<close>,
  and stays armed until the session ends.
\<close>

lemma ref_variant_nudges_bounded_and_spaced:
  assumes "0 \<le> nudgeCooldownMs opts" and "inSession es"
  shows "nudges (run opts pre (mount t0 b)) \<le> maxNudges opts
       \<and> sorted_wrt (\<lambda>a b. b - a > nudgeCooldownMs opts)
           (nudgeTimes opts es (run opts pre (mount t0 b)))"
  using countInv_run[OF countInv_mount, of opts pre t0 b]
    spacing_run[OF assms(1) countInv_run[OF countInv_mount, of opts pre t0 b] assms(2)]
  by (simp add: countInv_def)

lemma ref_variant_arms_when_count_reaches_max:
  "((\<not> armedFinalRef (run opts pre (mount t0 b))
       \<and> armedFinalRef (step opts e (run opts pre (mount t0 b))))
     \<longleftrightarrow> (nudges (run opts pre (mount t0 b)) < maxNudges opts
       \<and> nudges (step opts e (run opts pre (mount t0 b))) = maxNudges opts))
   \<and> showFinalWarning (run opts pre (mount t0 b)) = armedFinalRef (run opts pre (mount t0 b))
   \<and> (armedFinalRef (run opts pre (mount t0 b)) \<and> SetEnabled False \<notin> set es
        \<longrightarrow> armedFinalRef (run opts es (run opts pre (mount t0 b))))"
  using arm_step[OF countInv_run[OF countInv_mount, of opts pre t0 b], of e]
    countInv_run[OF countInv_mount, of opts pre t0 b]
    armed_kept_run[of "run opts pre (mount t0 b)" es opts]
  by (auto simp: countInv_def)

subsection \<open>The nudge block of the second variant\<close>

text \<open>
  While the closure of the second variant holds the values of a fresh mount, a frame whose
  score is below the nudge threshold and that comes after the cooldown emits a nudge,
  whatever the live counter is.
\<close>

lemma second_variant_nudge_ignores_counter:
  assumes "\<not> loopFinalStrike st" "\<not> loopShowFinalWarning st" "loopNudges st = 0"
    and "0 < maxNudges opts"
    and "loopScore opts (now - lastActRef st) < nudgeThreshold opts"
    and "now - lastNudgeRef st > nudgeCooldownMs opts"
  shows "nudges (loop2 opts now st) = nudges st + 1"
  using assms
  by (simp add: loop2_def Let_def strikeStep_def hysteresisStep_def nudgeStep2_def)

section \<open>Lemmas on the compliance guard\<close>

lemmas guardDefs = onVis_def onBlur_def onFS_def onFocus_def checkNow_def flagViolation_def
  resume_def onKey_def mountGuard_def initGuard_def isCompliant_def Let_def

lemmas docDefs = gateOpts_def inView_def away_def windowed_def

lemma suppressed_step: "suppressedRef st \<Longrightarrow> suppressedRef (stepGuard opts e st)"
  by (cases e)
    (auto simp: onVis_def onBlur_def onFS_def onFocus_def checkNow_def flagViolation_def
      resume_def onKey_def Let_def)

lemma suppressed_run: "suppressedRef st \<Longrightarrow> suppressedRef (runGuard opts es st)"
  by (induction es arbitrary: st) (simp_all add: suppressed_step)

lemma violations_step:
  "violations (stepGuard opts e st) =
     violations st + (if flagging opts e \<and> \<not> suppressedRef st then 1 else 0)"
  by (cases e)
    (auto simp: onVis_def onBlur_def onFS_def onFocus_def checkNow_def flagViolation_def
      resume_def onKey_def Let_def)

lemma violations_suppressed_run:
  "suppressedRef st \<Longrightarrow> violations (runGuard opts es st) = violations st"
proof (induction es arbitrary: st)
  case Nil
  then show ?case by simp
next
  case (Cons e es)
  from Cons.prems have "suppressedRef (stepGuard opts e st)" by (rule suppressed_step)
  from Cons.IH[OF this] Cons.prems show ?case by (simp add: violations_step)
qed

lemma violations_flagCount:
  "violations (runGuard opts es st) = violations st + int (flagCount opts es st)"
  by (induction es arbitrary: st) (simp_all add: violations_step)

lemma violations_run:
  "\<not> suppressedRef (runGuard opts es st) \<Longrightarrow>
   violations (runGuard opts es st) = violations st + int (length (filter (flagging opts) es))"
proof (induction es arbitrary: st)
  case Nil
  then show ?case by simp
next
  case (Cons e es)
  from Cons.prems have ns': "\<not> suppressedRef (runGuard opts es (stepGuard opts e st))"
    by simp
  have ns: "\<not> suppressedRef st"
  proof
    assume "suppressedRef st"
    then have "suppressedRef (runGuard opts (e # es) st)" by (rule suppressed_run)
    with Cons.prems show False by simp
  qed
  from Cons.IH[OF ns'] ns show ?case by (simp add: violations_step)
qed

section \<open>The claims\<close>

subsection \<open>C1: what increments the violation counter\<close>

text \<open>
  C1 as stated fails on \<^verbatim>\<open>useComplianceGuard\<close>. The user switches away from a
  compliant page once: the blur event and the visibility-change event both find the
  predicate false, and each increments the counter, so one compliant-to-non-compliant
  transition counts twice. When only the poll observes the transition, it counts zero times.
\<close>

theorem violations_recounted_without_transition:
  "violations (mountGuard gateOpts inView) = 0
   \<and> violations (runGuard gateOpts [Blur away, VisibilityChange away]
        (mountGuard gateOpts inView)) = 2
   \<and> transitions gateOpts (isCompliant gateOpts inView) [away, away] = 1
   \<and> violations (runGuard gateOpts [Poll away] (mountGuard gateOpts inView)) = 0
   \<and> transitions gateOpts (isCompliant gateOpts inView) [away] = 1"
  by (simp add: guardDefs docDefs)

text \<open>
  C1, amended: in \<^verbatim>\<open>useComplianceGuard\<close> the violation counter is incremented exactly
  once by every visibility-change, blur or fullscreen-change event whose handler finds the
  compliance predicate false while the guard is not suppressed, whether or not the page was
  already non-compliant before; no other event changes it: poll ticks, focus events, key
  events (the suppressing one included), the escape timer and \<^verbatim>\<open>resume()\<close> leave it
  as it is, and so does every event once the guard is suppressed. Along a run the counter
  grows by the number of such events.
\<close>

theorem violations_count_flagging_events:
  "violations (stepGuard opts e st)
     = violations st + (if flagging opts e \<and> \<not> suppressedRef st then 1 else 0)
   \<and> violations (runGuard opts es st) = violations st + int (flagCount opts es st)
   \<and> (\<not> suppressedRef (runGuard opts es st) \<longrightarrow>
      violations (runGuard opts es st)
        = violations st + int (length (filter (flagging opts) es)))
   \<and> (suppressedRef st \<longrightarrow> violations (runGuard opts es st) = violations st)"
  using violations_step[of opts e st] violations_flagCount[of opts es st]
    violations_run[of opts es st] violations_suppressed_run[of st opts es]
  by blast

text \<open>
  Two flagging events, a poll and a successful resume count two violations. Five presses
  of Ctrl+Shift+E after a blur suppress the guard and leave the counter at 1, the fifth
  press included, and a blur after them adds nothing.
\<close>

theorem violations_count_flagging_events_witness:
  "\<not> suppressedRef (runGuard gateOpts
        [Blur away, VisibilityChange away, Poll away, Resume inView]
        (mountGuard gateOpts inView))
   \<and> violations (runGuard gateOpts
        [Blur away, VisibilityChange away, Poll away, Resume inView]
        (mountGuard gateOpts inView)) = 2
   \<and> \<not> suppressedRef (runGuard gateOpts
        [Blur away, GuardKeyDown True True True, GuardKeyDown True True True,
         GuardKeyDown True True True, GuardKeyDown True True True]
        (mountGuard gateOpts inView))
   \<and> suppressedRef (stepGuard gateOpts (GuardKeyDown True True True)
        (runGuard gateOpts
          [Blur away, GuardKeyDown True True True, GuardKeyDown True True True,
           GuardKeyDown True True True, GuardKeyDown True True True]
          (mountGuard gateOpts inView)))
   \<and> violations (stepGuard gateOpts (GuardKeyDown True True True)
        (runGuard gateOpts
          [Blur away, GuardKeyDown True True True, GuardKeyDown True True True,
           GuardKeyDown True True True, GuardKeyDown True True True]
          (mountGuard gateOpts inView))) = 1
   \<and> violations (runGuard gateOpts
        [Blur away, GuardKeyDown True True True, GuardKeyDown True True True,
         GuardKeyDown True True True, GuardKeyDown True True True,
         GuardKeyDown True True True, Blur away]
        (mountGuard gateOpts inView)) = 1"
  using violations_count_flagging_events[of gateOpts "Poll away"
      "mountGuard gateOpts inView"
      "[Blur away, VisibilityChange away, Poll away, Resume inView]"]
    violations_count_flagging_events[of gateOpts "GuardKeyDown True True True"
      "runGuard gateOpts
          [Blur away, GuardKeyDown True True True, GuardKeyDown True True True,
           GuardKeyDown True True True, GuardKeyDown True True True]
          (mountGuard gateOpts inView)"
      "[Blur away, GuardKeyDown True True True, GuardKeyDown True True True,
         GuardKeyDown True True True, GuardKeyDown True True True,
         GuardKeyDown True True True, Blur away]"]
  by (simp add: guardDefs docDefs)

subsection \<open>C2: the hysteresis before the strike\<close>

text \<open>
  C2 as stated fails on the ref-based variant. With the options of \<^verbatim>\<open>App.tsx\<close>, four
  nudges at score 1/4 are each followed by activity; the fifth nudge comes at 27.5 seconds
  of idle time, at a score between 0.43 and 0.5, and arms the final warning. The hysteresis
  block of the same frame finds the score above \<open>finalThreshold + 0.08 = 0.43\<close> and sets
  \<^verbatim>\<open>hysteresisOkRef\<close> again. The user stays idle; the next frame sees the score 1/4,
  below \<open>finalThreshold = 0.35\<close> and below the score of the arming frame, and sets
  \<^verbatim>\<open>finalStrike\<close>: a dip after the arming, with no rise of the score before it.
\<close>

theorem strike_without_rise_after_arming:
  "\<not> armedFinalRef (run appOpts [Frame 45000, Input 46000, Frame 91000, Input 92000,
        Frame 137000, Input 138000, Frame 183000, Input 184000] (mount 0 True))
   \<and> armedFinalRef (run appOpts [Frame 45000, Input 46000, Frame 91000, Input 92000,
        Frame 137000, Input 138000, Frame 183000, Input 184000, Frame 211500] (mount 0 True))
   \<and> score (run appOpts [Frame 45000, Input 46000, Frame 91000, Input 92000,
        Frame 137000, Input 138000, Frame 183000, Input 184000, Frame 211500] (mount 0 True))
       = loopScore appOpts 27500
   \<and> \<not> finalStrike (run appOpts [Frame 45000, Input 46000, Frame 91000, Input 92000,
        Frame 137000, Input 138000, Frame 183000, Input 184000, Frame 211500] (mount 0 True))
   \<and> score (run appOpts [Frame 45000, Input 46000, Frame 91000, Input 92000,
        Frame 137000, Input 138000, Frame 183000, Input 184000, Frame 211500, Frame 229000]
        (mount 0 True)) = 1 / 4
   \<and> 1 / 4 < loopScore appOpts 27500
   \<and> 1 / 4 < finalThreshold appOpts
   \<and> finalStrike (run appOpts [Frame 45000, Input 46000, Frame 91000, Input 92000,
        Frame 137000, Input 138000, Frame 183000, Input 184000, Frame 211500, Frame 229000]
        (mount 0 True))"
  using loopScore_app_27500
  by (simp add: evalDefs appOpts_fields loopScore_app_values loopScore_app_27500_tests)

text \<open>
  C2, amended: in both variants, \<^verbatim>\<open>finalStrike\<close> is set only after some frame has left
  the final warning armed with the score above \<open>finalThreshold + 0.08\<close>, and the frame
  that arms the warning counts as such a frame. So from a state in which the warning, if
  armed, still waits for that (the state at mount, and the state left by an arming at a
  score of at most \<open>finalThreshold + 0.08\<close>), a run none of whose frames leaves the
  warning armed with the score above \<open>finalThreshold + 0.08\<close> never sets
  \<^verbatim>\<open>finalStrike\<close>, however far the score dips below \<open>finalThreshold\<close>.
\<close>

theorem no_strike_unless_armed_above_margin:
  assumes "armedFinalRef st \<longrightarrow> \<not> hysteresisOkRef st" and "\<not> finalStrike st"
  shows "(noArmedAboveMargin opts es st \<longrightarrow> \<not> finalStrike (run opts es st))
       \<and> (noArmedAboveMargin2 opts es st \<longrightarrow> \<not> finalStrike (run2 opts es st))"
  using assms hys_run[of st opts es] hys_run2[of st opts es] by (auto simp: hysInv_def)

text \<open>
  The first frame arms the warning at score 1/16, below \<open>finalThreshold + 0.08 = 0.28\<close>;
  the score stays below the threshold 0.2 for two more frames; no strike.
\<close>

theorem no_strike_unless_armed_above_margin_witness:
  "armedFinalRef (run quickOpts [Frame 65000, Frame 80000, Frame 140000] (mount 0 True))
   \<and> score (run quickOpts [Frame 65000, Frame 80000, Frame 140000] (mount 0 True))
       < finalThreshold quickOpts
   \<and> \<not> finalStrike (run quickOpts [Frame 65000, Frame 80000, Frame 140000] (mount 0 True))
   \<and> armedFinalRef (run2 quickOpts [Frame 65000, Frame 80000, Frame 140000] (mount2 0 True))
   \<and> \<not> finalStrike (run2 quickOpts [Frame 65000, Frame 80000, Frame 140000]
         (mount2 0 True))"
  using no_strike_unless_armed_above_margin[of "mount 0 True" quickOpts
      "[Frame 65000, Frame 80000, Frame 140000]"]
  by (simp add: evalDefs quickOpts_fields loopScore_quick_values)

subsection \<open>C3: the score as a function of the idle time\<close>

text \<open>
  C3: with a positive half-life and a floor of at most 1, the score a frame computes for
  the idle time \<open>idle\<close> is 1 up to \<open>graceMs\<close> and
  \<open>max minScore (exp (- ln 2 * (idle - graceMs) / halfLifeMs))\<close> beyond it, it does not
  increase with the idle time, and the score of the state stays in \<open>[0, 1]\<close> along every
  run of either variant.
\<close>

theorem score_decay_formula:
  assumes "0 < halfLifeMs opts" and "minScore opts \<le> 1"
  shows "(idle \<le> graceMs opts \<longrightarrow> loopScore opts idle = 1)
       \<and> (idle > graceMs opts \<longrightarrow>
            loopScore opts idle
              = max (minScore opts) (exp (- ln 2 * (idle - graceMs opts) / halfLifeMs opts)))
       \<and> (idle \<le> idle' \<longrightarrow> loopScore opts idle' \<le> loopScore opts idle)
       \<and> score (loop opts now st) = loopScore opts (now - lastActRef st)
       \<and> score (loop2 opts now st) = loopScore opts (now - lastActRef st)
       \<and> 0 \<le> score (run opts es (mount t0 b)) \<and> score (run opts es (mount t0 b)) \<le> 1
       \<and> 0 \<le> score (run2 opts es (mount2 t0 b)) \<and> score (run2 opts es (mount2 t0 b)) \<le> 1"
proof -
  have a: "idle \<le> graceMs opts \<longrightarrow> loopScore opts idle = 1"
    by (simp add: loopScore_def)
  have b: "idle > graceMs opts \<longrightarrow>
      loopScore opts idle
        = max (minScore opts) (exp (- ln 2 * (idle - graceMs opts) / halfLifeMs opts))"
    using assms(1) by (simp add: loopScore_def expDecay_def)
  have c: "idle \<le> idle' \<longrightarrow> loopScore opts idle' \<le> loopScore opts idle"
    using loopScore_antimono[OF assms] by blast
  have d: "scoreInv (run opts es (mount t0 b))"
    by (rule scoreInv_run[OF assms scoreInv_mount(1)])
  have e: "scoreInv (run2 opts es (mount2 t0 b))"
    by (rule scoreInv_run2[OF assms scoreInv_mount(2)])
  from a b c d e show ?thesis by (simp add: score_loop score_loop2 scoreInv_def)
qed

text \<open>
  The first example scenario of the specification: score 1 at 5000 ms of idle time, and
  1/2 at 20000 ms.
\<close>

theorem score_decay_formula_witness:
  "loopScore defaultOpts 5000 = 1
   \<and> loopScore defaultOpts 20000 = max (5 / 100) (exp (- ln 2 * (20000 - 5000) / 15000))
   \<and> loopScore defaultOpts 20000 \<le> loopScore defaultOpts 5000
   \<and> score (run defaultOpts [Frame 20000] (mount 0 True)) \<le> 1"
  using score_decay_formula[where opts = defaultOpts and idle = 5000 and idle' = 20000
      and es = "[Frame 20000]" and ?t0.0 = 0 and b = True]
    score_decay_formula[where opts = defaultOpts and idle = 20000 and idle' = 20000]
  by (simp add: defaultOpts_fields)

subsection \<open>C4: the nudge counter and the spacing of nudges\<close>

text \<open>
  C4 fails on the second variant, whose loop tests the \<^verbatim>\<open>nudges\<close> and
  \<^verbatim>\<open>showFinalWarning\<close> captured when the effect ran, while \<^verbatim>\<open>setNudges(n => n + 1)\<close>
  increments the live counter. With the defaults of that variant (\<open>maxNudges = 2\<close>) and an
  idle user, the frames at 65, 125 and 185 seconds each emit a nudge: the counter reaches 3.
  The ref-based variant stops at 2 on the same input.
\<close>

theorem second_variant_nudges_exceed_max:
  "maxNudges defaultOpts2 = 2
   \<and> nudges (run2 defaultOpts2 [Frame 65000, Frame 125000, Frame 185000] (mount2 0 True)) = 3
   \<and> nudges (run defaultOpts2 [Frame 65000, Frame 125000, Frame 185000] (mount 0 True)) = 2"
  by (simp add: evalDefs defaultOpts2_fields loopScore_default2_values)

subsection \<open>C5: when the final warning is armed\<close>

text \<open>
  C5 fails on the second variant for the same reason: the arming test
  \<^verbatim>\<open>nudges + 1 >= maxNudges\<close> reads the captured \<^verbatim>\<open>nudges\<close>, which is 0, so with
  \<open>maxNudges = 2\<close> the second nudge takes the counter to \<open>maxNudges\<close> and arms nothing.
  The ref-based variant arms the warning at that frame.
\<close>

theorem second_variant_never_arms:
  "nudges (run2 defaultOpts2 [Frame 65000, Frame 125000] (mount2 0 True))
     = maxNudges defaultOpts2
   \<and> \<not> showFinalWarning (run2 defaultOpts2 [Frame 65000, Frame 125000] (mount2 0 True))
   \<and> \<not> armedFinalRef (run2 defaultOpts2 [Frame 65000, Frame 125000] (mount2 0 True))
   \<and> showFinalWarning (run defaultOpts2 [Frame 65000, Frame 125000] (mount 0 True))
   \<and> armedFinalRef (run defaultOpts2 [Frame 65000, Frame 125000] (mount 0 True))"
  by (simp add: evalDefs defaultOpts2_fields loopScore_default2_values)

subsection \<open>C6: the strike comes after the warning and stays\<close>

text \<open>
  C6: in both variants, on every run from the mount, \<^verbatim>\<open>finalStrike\<close> is true only in
  states where the final warning is armed (\<^verbatim>\<open>armedFinalRef\<close> and
  \<^verbatim>\<open>showFinalWarning\<close>), so it is false at every step before the arming; and once it
  is true it stays true for the rest of the session (in the second variant, for ever).
\<close>

theorem strike_only_after_armed_and_permanent:
  "(finalStrike (run opts es (mount t0 b)) \<longrightarrow>
      armedFinalRef (run opts es (mount t0 b)) \<and> showFinalWarning (run opts es (mount t0 b)))
   \<and> (finalStrike (run2 opts es (mount2 t0 b)) \<longrightarrow>
      armedFinalRef (run2 opts es (mount2 t0 b))
      \<and> showFinalWarning (run2 opts es (mount2 t0 b)))
   \<and> (finalStrike st \<and> SetEnabled False \<notin> set es' \<longrightarrow> finalStrike (run opts es' st))
   \<and> (finalStrike st \<longrightarrow> finalStrike (run2 opts es' st))"
  using armedInv_run[OF armedInv_mount(1), of opts es t0 b]
    armedInv_run2[OF armedInv_mount(2), of opts es t0 b]
    strike_kept_run[of st es' opts] strike_kept_run2[of st opts es']
  by (auto simp: armedInv_def)

text \<open>
  The third example scenario of the specification: the warning is armed at a low score,
  the user types, the score decays again and the strike is set; it is still set two
  events later.
\<close>

theorem strike_only_after_armed_and_permanent_witness:
  "finalStrike (run quickOpts [Frame 65000, Input 66000, Frame 67000, Frame 116000]
      (mount 0 True))
   \<and> armedFinalRef (run quickOpts [Frame 65000, Input 66000, Frame 67000, Frame 116000]
      (mount 0 True))
   \<and> showFinalWarning (run quickOpts [Frame 65000, Input 66000, Frame 67000, Frame 116000]
      (mount 0 True))
   \<and> \<not> finalStrike (run quickOpts [Frame 65000, Input 66000, Frame 67000] (mount 0 True))
   \<and> finalStrike (run2 quickOpts [Frame 65000, Input 66000, Frame 67000, Frame 116000]
      (mount2 0 True))
   \<and> finalStrike (run quickOpts [Input 117000, Frame 118000]
      (run quickOpts [Frame 65000, Input 66000, Frame 67000, Frame 116000] (mount 0 True)))"
  using strike_only_after_armed_and_permanent[where opts = quickOpts
      and es = "[Frame 65000, Input 66000, Frame 67000, Frame 116000]" and ?t0.0 = 0
      and b = True and es' = "[Input 117000, Frame 118000]"
      and st = "run quickOpts [Frame 65000, Input 66000, Frame 67000, Frame 116000]
         (mount 0 True)"]
  by (simp add: evalDefs quickOpts_fields loopScore_quick_values)

subsection \<open>C7: the reset when monitoring ends\<close>

text \<open>
  C7 as stated fails on the second variant, which has no reset branch
  (\<^verbatim>\<open>if (!enabled) return;\<close>): after a frame with a nudge, disabling leaves the score,
  the worst score and the nudge counter as they were.
\<close>

theorem second_variant_keeps_state_when_disabled:
  "score (run2 defaultOpts2 [Frame 65000, SetEnabled False] (mount2 0 True)) = 1/4
   \<and> worstScore (run2 defaultOpts2 [Frame 65000, SetEnabled False] (mount2 0 True)) = 1/4
   \<and> nudges (run2 defaultOpts2 [Frame 65000, SetEnabled False] (mount2 0 True)) = 1
   \<and> \<not> enabled (run2 defaultOpts2 [Frame 65000, SetEnabled False] (mount2 0 True))"
  by (simp add: evalDefs defaultOpts2_fields loopScore_default2_values)

text \<open>
  C7, amended: in the ref-based variant, when \<^verbatim>\<open>enabled\<close> becomes false, score and
  worst score are reset to 1, the nudge counter to 0, and \<^verbatim>\<open>showNudge\<close>,
  \<^verbatim>\<open>showFinalWarning\<close> and \<^verbatim>\<open>finalStrike\<close> to false; the nudge ref and the time of
  the last nudge return to 0, the armed flag to false and the hysteresis flag to true. When
  \<^verbatim>\<open>enabled\<close> becomes true again, the loop starts from these values.
\<close>

theorem ref_variant_reset_on_disable:
  assumes "enabled st"
  shows "score (step opts (SetEnabled False) st) = 1
       \<and> worstScore (step opts (SetEnabled False) st) = 1
       \<and> nudges (step opts (SetEnabled False) st) = 0
       \<and> \<not> showNudge (step opts (SetEnabled False) st)
       \<and> \<not> showFinalWarning (step opts (SetEnabled False) st)
       \<and> \<not> finalStrike (step opts (SetEnabled False) st)
       \<and> nudgesRef (step opts (SetEnabled False) st) = 0
       \<and> lastNudgeRef (step opts (SetEnabled False) st) = 0
       \<and> \<not> armedFinalRef (step opts (SetEnabled False) st)
       \<and> hysteresisOkRef (step opts (SetEnabled False) st)
       \<and> \<not> enabled (step opts (SetEnabled False) st)
       \<and> enabled (run opts [SetEnabled False, SetEnabled True] st)
       \<and> score (run opts [SetEnabled False, SetEnabled True] st) = 1
       \<and> worstScore (run opts [SetEnabled False, SetEnabled True] st) = 1
       \<and> nudges (run opts [SetEnabled False, SetEnabled True] st) = 0
       \<and> \<not> showNudge (run opts [SetEnabled False, SetEnabled True] st)
       \<and> \<not> showFinalWarning (run opts [SetEnabled False, SetEnabled True] st)
       \<and> \<not> finalStrike (run opts [SetEnabled False, SetEnabled True] st)
       \<and> nudgesRef (run opts [SetEnabled False, SetEnabled True] st) = 0
       \<and> lastNudgeRef (run opts [SetEnabled False, SetEnabled True] st) = 0
       \<and> \<not> armedFinalRef (run opts [SetEnabled False, SetEnabled True] st)
       \<and> hysteresisOkRef (run opts [SetEnabled False, SetEnabled True] st)
       \<and> \<not> loopFinalStrike (run opts [SetEnabled False, SetEnabled True] st)"
  using assms by (simp add: resetAll_def cleanup_def startLoop_def)

text \<open>A session with one nudge at score 1/4 is reset by the disabling.\<close>

theorem ref_variant_reset_on_disable_witness:
  "enabled (run defaultOpts [Frame 35000] (mount 0 True))
   \<and> score (run defaultOpts [Frame 35000] (mount 0 True)) = 1/4
   \<and> worstScore (run defaultOpts [Frame 35000] (mount 0 True)) = 1/4
   \<and> nudges (run defaultOpts [Frame 35000] (mount 0 True)) = 1
   \<and> lastNudgeRef (run defaultOpts [Frame 35000] (mount 0 True)) = 35000
   \<and> score (run defaultOpts [Frame 35000, SetEnabled False] (mount 0 True)) = 1
   \<and> worstScore (run defaultOpts [Frame 35000, SetEnabled False] (mount 0 True)) = 1
   \<and> nudges (run defaultOpts [Frame 35000, SetEnabled False] (mount 0 True)) = 0
   \<and> lastNudgeRef (run defaultOpts [Frame 35000, SetEnabled False] (mount 0 True)) = 0
   \<and> nudges (run defaultOpts [Frame 35000, SetEnabled False, SetEnabled True]
        (mount 0 True)) = 0"
  using ref_variant_reset_on_disable[of "run defaultOpts [Frame 35000] (mount 0 True)"
      defaultOpts]
  by (simp add: evalDefs defaultOpts_fields loopScore_default_values)

subsection \<open>C8: activity events\<close>

text \<open>
  C8: while the hook is enabled, in both variants, each recognized activity event (a
  key-down with none of Meta, Ctrl and Alt held, an input, a mouse move, a mouse down, a
  wheel event, a selection change) sets the time of the last activity to the current time
  and the score to 1 in the same step, whatever the score was, and changes nothing else; a
  key-down with Meta, Ctrl or Alt held changes nothing. The listener does not look at the
  Shift key.
\<close>

theorem activity_resets_score:
  assumes "enabled st"
    and "e \<in> {KeyDown False False False shiftKey now, Input now, MouseMove now,
               MouseDown now, Wheel now, SelectionChange now}"
  shows "step opts e st = st\<lparr>lastActRef := now, score := 1\<rparr>
       \<and> step2 opts e st = st\<lparr>lastActRef := now, score := 1\<rparr>
       \<and> (metaKey \<or> ctrlKey \<or> altKey \<longrightarrow>
            step opts (KeyDown metaKey ctrlKey altKey shiftKey' now') st = st
            \<and> step2 opts (KeyDown metaKey ctrlKey altKey shiftKey' now') st = st)"
  using assms by (auto simp: key_def markActive_def)

text \<open>
  After a frame has taken the score to 1/4, a plain key-down at 36000 ms brings it back to
  1, and Ctrl with a key does not.
\<close>

theorem activity_resets_score_witness:
  "enabled (run defaultOpts [Frame 35000] (mount 0 True))
   \<and> score (run defaultOpts [Frame 35000] (mount 0 True)) = 1/4
   \<and> score (run defaultOpts [Frame 35000, KeyDown False False False False 36000]
        (mount 0 True)) = 1
   \<and> lastActRef (run defaultOpts [Frame 35000, KeyDown False False False False 36000]
        (mount 0 True)) = 36000
   \<and> score (run defaultOpts [Frame 35000, KeyDown False True False False 36000]
        (mount 0 True)) = 1/4
   \<and> lastActRef (run defaultOpts [Frame 35000, KeyDown False True False False 36000]
        (mount 0 True)) = 0"
  using activity_resets_score[where st = "run defaultOpts [Frame 35000] (mount 0 True)"
      and e = "KeyDown False False False False 36000" and shiftKey = False and now = 36000
      and opts = defaultOpts and metaKey = False and ctrlKey = True and altKey = False
      and shiftKey' = False and now' = 36000]
  by (simp add: evalDefs defaultOpts_fields loopScore_default_values)

subsection \<open>C9: resume\<close>

text \<open>
  C9 as stated fails on \<^verbatim>\<open>useAttentionGuard\<close>, whose \<^verbatim>\<open>resume\<close> tests nothing: after
  a fullscreen exit has raised the overlay, a resume whose fullscreen request is denied
  (the document is still not fullscreen, so the predicate fails) clears
  \<^verbatim>\<open>needsAttention\<close> and calls the resume callback.
\<close>

theorem attention_guard_resume_unconditional:
  "\<not> isCompliant gateOpts windowed
   \<and> needsAttention (stepA (FullscreenChange windowed) (initGuard gateOpts))
   \<and> \<not> needsAttention (stepA (Resume windowed)
         (stepA (FullscreenChange windowed) (initGuard gateOpts)))
   \<and> onResumeCalls (stepA (Resume windowed)
         (stepA (FullscreenChange windowed) (initGuard gateOpts))) = 1"
  by (simp add: guardDefs docDefs onFullscreenChange_def flagViolationA_def resumeA_def)

text \<open>
  C9, amended: for every call of \<^verbatim>\<open>resume()\<close> of \<^verbatim>\<open>useComplianceGuard\<close>, with \<open>d\<close>
  the document found after the fullscreen request and one frame: if the compliance
  predicate holds, \<^verbatim>\<open>needsAttention\<close> is cleared and the resume callback is called once;
  if it fails, \<^verbatim>\<open>needsAttention\<close> is true afterwards and the callback is not called.
\<close>

theorem compliance_guard_resume:
  "(isCompliant opts d \<longrightarrow>
      \<not> needsAttention (resume opts d st)
      \<and> onResumeCalls (resume opts d st) = onResumeCalls st + 1)
   \<and> (\<not> isCompliant opts d \<longrightarrow>
      needsAttention (resume opts d st)
      \<and> onResumeCalls (resume opts d st) = onResumeCalls st)"
  by (simp add: resume_def)

text \<open>
  The fourth example scenario of the specification: after a blur, a resume that finds the
  page in view clears the overlay; one that finds it not fullscreen leaves it up.
\<close>

theorem compliance_guard_resume_witness:
  "isCompliant gateOpts inView \<and> \<not> isCompliant gateOpts windowed
   \<and> needsAttention (runGuard gateOpts [Blur away] (mountGuard gateOpts inView))
   \<and> \<not> needsAttention (runGuard gateOpts [Blur away, Resume inView]
         (mountGuard gateOpts inView))
   \<and> onResumeCalls (runGuard gateOpts [Blur away, Resume inView]
         (mountGuard gateOpts inView)) = 1
   \<and> needsAttention (runGuard gateOpts [Blur away, Resume windowed]
         (mountGuard gateOpts inView))
   \<and> onResumeCalls (runGuard gateOpts [Blur away, Resume windowed]
         (mountGuard gateOpts inView)) = 0"
  using compliance_guard_resume[of gateOpts inView
      "runGuard gateOpts [Blur away] (mountGuard gateOpts inView)"]
    compliance_guard_resume[of gateOpts windowed
      "runGuard gateOpts [Blur away] (mountGuard gateOpts inView)"]
  by (simp add: guardDefs docDefs)

subsection \<open>C10: what leaves the violation counter alone\<close>

text \<open>
  C10: in \<^verbatim>\<open>useComplianceGuard\<close>, \<^verbatim>\<open>checkNow\<close> (the poll) and \<^verbatim>\<open>resume\<close> never
  change the violation counter nor call the violation callback, whatever they find; a
  failed resume leaves the counter as it was and the overlay up; and a step that changes
  the counter is a visibility-change, blur or fullscreen-change handler that found the
  predicate false and called \<^verbatim>\<open>flagViolation\<close>.
\<close>

theorem violations_frame_condition:
  "violations (checkNow opts d st) = violations st
   \<and> onViolationCalls (checkNow opts d st) = onViolationCalls st
   \<and> violations (resume opts d st) = violations st
   \<and> onViolationCalls (resume opts d st) = onViolationCalls st
   \<and> (\<not> isCompliant opts d \<longrightarrow> needsAttention (resume opts d st))
   \<and> (violations (stepGuard opts e st) \<noteq> violations st \<longrightarrow>
        flagging opts e \<and> stepGuard opts e st = flagViolation st)"
  by (cases e)
    (auto simp: onVis_def onBlur_def onFS_def onFocus_def checkNow_def flagViolation_def
      resume_def onKey_def Let_def)

text \<open>
  After one blur the counter is 1; a poll and a failed resume leave it at 1 with the
  overlay up, and the blur itself was the call of \<^verbatim>\<open>flagViolation\<close>.
\<close>

theorem violations_frame_condition_witness:
  "violations (runGuard gateOpts [Blur away] (mountGuard gateOpts inView)) = 1
   \<and> violations (runGuard gateOpts [Blur away, Poll away, Resume windowed]
        (mountGuard gateOpts inView)) = 1
   \<and> needsAttention (runGuard gateOpts [Blur away, Poll away, Resume windowed]
        (mountGuard gateOpts inView))
   \<and> stepGuard gateOpts (Blur away) (mountGuard gateOpts inView)
        = flagViolation (mountGuard gateOpts inView)"
  using violations_frame_condition[of gateOpts windowed
      "runGuard gateOpts [Blur away, Poll away] (mountGuard gateOpts inView)"
      "Blur away"]
    violations_frame_condition[of gateOpts away "mountGuard gateOpts inView" "Blur away"]
  by (simp add: guardDefs docDefs)

end
